theory Spec2Isabelle
  imports Complex_Main
begin

section \<open>Data model (types.ts, offlineRoutingEngine.ts)\<close>

text \<open>
  A JavaScript \<open>number\<close> that is finite is modelled as a \<open>real\<close>: arithmetic is exact,
  rounding of IEEE doubles is not modelled.  Where the code stores \<open>Infinity\<close> (the score
  maps of the path search) the type \<open>num\<close> below is used.
\<close>

record Coordinates =
  lat :: real
  lng :: real

record RoutingOptions =
  preferPaved :: bool
  avoidHills :: bool
  allowHighways :: bool

datatype Surface = paved | unpaved

record GraphEdge =
  nodeId :: string
  weight :: real
  surface :: Surface
  isHilly :: bool

text \<open>
  A graph node carries \<open>lat\<close> and \<open>lng\<close> and is passed to the geodesic functions where
  a \<open>Coordinates\<close> is expected (structural typing), hence the record extension.
\<close>

record GraphNode = Coordinates +
  id' :: string
  neighbors :: "GraphEdge list"

datatype error = TypeError

section \<open>Geodesic primitives (navigationService.ts)\<close>

definition R :: real where
  "R = 6378137"

definition toRad :: "real \<Rightarrow> real" where
  "toRad deg = (deg * pi) / 180"

definition toDeg :: "real \<Rightarrow> real" where
  "toDeg rad = (rad * 180) / pi"

text \<open>\<open>Math.atan2(y, x)\<close> on reals (no signed zero): the angle of the point \<open>(x, y)\<close> in
  \<open>(-pi, pi]\<close>, and \<open>0\<close> at the origin.\<close>

definition atan2 :: "real \<Rightarrow> real \<Rightarrow> real" where
  "atan2 y x =
     (if 0 < x then arctan (y / x)
      else if x < 0 then (if 0 \<le> y then arctan (y / x) + pi else arctan (y / x) - pi)
      else if 0 < y then pi / 2
      else if y < 0 then - (pi / 2)
      else 0)"

text \<open>The remainder operator \<open>%\<close>: the quotient is truncated towards zero, so the result
  has the sign of the dividend.\<close>

definition js_rem :: "real \<Rightarrow> real \<Rightarrow> real" where
  "js_rem x y =
     x - y * of_int (if 0 \<le> x / y then \<lfloor>x / y\<rfloor> else \<lceil>x / y\<rceil>)"

text \<open>\<open>Math.asin\<close> is \<open>arcsin\<close>; its argument below lies in \<open>[-1, 1]\<close> for every input
  (lemma \<open>asin_arg_range\<close>), so the case where JavaScript yields \<open>NaN\<close> does not arise
  in exact arithmetic.\<close>

definition calculateNewPosition ::
  "'a Coordinates_scheme \<Rightarrow> real \<Rightarrow> real \<Rightarrow> Coordinates" where
  "calculateNewPosition start distanceMeters bearingDegrees =
     (let lat1 = toRad (lat start);
          lon1 = toRad (lng start);
          angularDistance = distanceMeters / R;
          bearingRad = toRad bearingDegrees;
          lat2 = arcsin (sin lat1 * cos angularDistance
                   + cos lat1 * sin angularDistance * cos bearingRad);
          lon2 = lon1 + atan2 (sin bearingRad * sin angularDistance * cos lat1)
                              (cos angularDistance - sin lat1 * sin lat2)
      in \<lparr> lat = toDeg lat2, lng = toDeg lon2 \<rparr>)"

definition calculateDistance ::
  "'a Coordinates_scheme \<Rightarrow> 'b Coordinates_scheme \<Rightarrow> real" where
  "calculateDistance p1 p2 =
     (let dLat = toRad (lat p2 - lat p1);
          dLon = toRad (lng p2 - lng p1);
          lat1 = toRad (lat p1);
          lat2 = toRad (lat p2);
          a = sin (dLat / 2) * sin (dLat / 2)
              + sin (dLon / 2) * sin (dLon / 2) * cos lat1 * cos lat2;
          c = 2 * atan2 (sqrt a) (sqrt (1 - a))
      in R * c)"

definition calculateBearing ::
  "'a Coordinates_scheme \<Rightarrow> 'b Coordinates_scheme \<Rightarrow> real" where
  "calculateBearing start endp =
     (let lat1 = toRad (lat start);
          lat2 = toRad (lat endp);
          dLon = toRad (lng endp - lng start);
          y = sin dLon * cos lat2;
          x = cos lat1 * sin lat2 - sin lat1 * cos lat2 * cos dLon
      in js_rem (toDeg (atan2 y x) + 360) 360)"

section \<open>Preference-adjusted edge cost (calculateOfflineRoute, the body of the neighbour loop)\<close>

text \<open>The parameter \<open>options\<close> is optional in the source (\<open>options?.preferPaved\<close>), so it
  is an \<open>option\<close> here; a missing \<open>options\<close> applies no penalty.\<close>

definition edgeCost :: "RoutingOptions option \<Rightarrow> GraphEdge \<Rightarrow> real" where
  "edgeCost options neighbor =
     (let c0 = weight neighbor;
          c1 = (if (case options of None \<Rightarrow> False | Some opt \<Rightarrow> preferPaved opt)
                   \<and> surface neighbor = unpaved then c0 * 3.0 else c0);
          c2 = (if (case options of None \<Rightarrow> False | Some opt \<Rightarrow> avoidHills opt)
                   \<and> isHilly neighbor then c1 * 5.0 else c1);
          c3 = (if (case options of None \<Rightarrow> False | Some opt \<Rightarrow> \<not> allowHighways opt)
                   \<and> surface neighbor = paved then c2 * 2.0 else c2)
      in c3)"

section \<open>Offline topology graph (offlineRoutingEngine.ts)\<close>

text \<open>The score maps hold \<open>Infinity\<close> beside finite numbers.\<close>

datatype num = Fin real | Infinity

fun num_add :: "num \<Rightarrow> num \<Rightarrow> num" where
  "num_add (Fin a) (Fin b) = Fin (a + b)"
| "num_add (Fin a) Infinity = Infinity"
| "num_add Infinity b = Infinity"

fun num_less :: "num \<Rightarrow> num \<Rightarrow> bool" where
  "num_less (Fin a) (Fin b) = (a < b)"
| "num_less (Fin a) Infinity = True"
| "num_less Infinity b = False"

text \<open>The expression \<open>m.get(k) || Infinity\<close>: the right operand is taken when the left one
  is falsy, that is when the key is missing (\<open>undefined\<close>) and also when the stored number
  is \<open>0\<close>.\<close>

fun orInfinity :: "num option \<Rightarrow> num" where
  "orInfinity None = Infinity"
| "orInfinity (Some (Fin v)) = (if v = 0 then Infinity else Fin v)"
| "orInfinity (Some Infinity) = Infinity"

text \<open>The graph is a \<open>Map<string, GraphNode>\<close>, iterated in insertion order by
  \<open>forEach\<close>: a list of nodes in insertion order, looked up by \<open>id\<close>.\<close>

type_synonym Graph = "GraphNode list"

definition graph_get :: "Graph \<Rightarrow> string \<Rightarrow> GraphNode option" where
  "graph_get g k = find (\<lambda>n. id' n = k) g"

definition graph_set :: "Graph \<Rightarrow> GraphNode \<Rightarrow> Graph" where
  "graph_set g n =
     (if graph_get g (id' n) = None then g @ [n]
      else map (\<lambda>m. if id' m = id' n then n else m) g)"

definition RAW_NODES :: "(string \<times> real \<times> real) list" where
  "RAW_NODES =
     [(''n1'', 26.9124, 75.7873), (''n2'', 26.9124, 75.7923), (''n3'', 26.9124, 75.7823),
      (''n4'', 26.9169, 75.7873), (''n5'', 26.9169, 75.7923), (''n6'', 26.9169, 75.7823),
      (''n7'', 26.9079, 75.7873), (''n8'', 26.9079, 75.7923), (''n9'', 26.9079, 75.7823),
      (''n10'', 26.9124, 75.7973), (''n11'', 26.9169, 75.7973), (''n12'', 26.9079, 75.7973),
      (''n13'', 26.9124, 75.7773), (''n14'', 26.9169, 75.7773), (''n15'', 26.9079, 75.7773),
      (''n16'', 26.9200, 75.7900), (''n17'', 26.9050, 75.7850)]"

definition populate :: "Graph \<Rightarrow> (string \<times> real \<times> real) \<Rightarrow> Graph" where
  "populate g n =
     (case n of (i, la, lo) \<Rightarrow>
        graph_set g \<lparr> lat = la, lng = lo, id' = i, neighbors = [] \<rparr>)"

definition pushNeighbor :: "Graph \<Rightarrow> string \<Rightarrow> GraphEdge \<Rightarrow> Graph" where
  "pushNeighbor g k e =
     map (\<lambda>n. if id' n = k then n\<lparr> neighbors := neighbors n @ [e] \<rparr> else n) g"

definition addEdge :: "Graph \<Rightarrow> string \<Rightarrow> string \<Rightarrow> Surface \<Rightarrow> bool \<Rightarrow> Graph" where
  "addEdge g id1 id2 surf hilly =
     (case graph_get g id1 of
        None \<Rightarrow> g
      | Some n1 \<Rightarrow>
          (case graph_get g id2 of
             None \<Rightarrow> g
           | Some n2 \<Rightarrow>
               (let dist = calculateDistance n1 n2;
                    g1 = pushNeighbor g id1
                           \<lparr> nodeId = id2, weight = dist, surface = surf, isHilly = hilly \<rparr>
                in pushNeighbor g1 id2
                     \<lparr> nodeId = id1, weight = dist, surface = surf, isHilly = hilly \<rparr>)))"

text \<open>The \<open>addEdge\<close> calls of the module, in source order, with the default arguments
  (\<open>paved\<close>, not hilly) written out.\<close>

definition edgeCalls :: "(string \<times> string \<times> Surface \<times> bool) list" where
  "edgeCalls =
     [(''n3'', ''n1'', paved, False), (''n1'', ''n2'', paved, False),
      (''n2'', ''n10'', paved, False), (''n13'', ''n3'', unpaved, True),
      (''n6'', ''n4'', paved, False), (''n4'', ''n5'', paved, False),
      (''n5'', ''n11'', paved, False), (''n14'', ''n6'', unpaved, False),
      (''n9'', ''n7'', unpaved, False), (''n7'', ''n8'', paved, False),
      (''n8'', ''n12'', unpaved, True), (''n15'', ''n9'', unpaved, True),
      (''n6'', ''n3'', paved, False), (''n3'', ''n9'', unpaved, False),
      (''n9'', ''n15'', unpaved, False), (''n4'', ''n1'', paved, False),
      (''n1'', ''n7'', paved, False), (''n7'', ''n17'', unpaved, False),
      (''n5'', ''n2'', paved, False), (''n2'', ''n8'', paved, False),
      (''n11'', ''n10'', unpaved, False), (''n10'', ''n12'', unpaved, False),
      (''n14'', ''n13'', unpaved, False), (''n13'', ''n15'', unpaved, False),
      (''n4'', ''n16'', unpaved, True), (''n16'', ''n5'', unpaved, False)]"

definition graph :: Graph where
  "graph =
     foldl (\<lambda>g c. case c of (id1, id2, surf, hilly) \<Rightarrow> addEdge g id1 id2 surf hilly)
       (foldl populate [] RAW_NODES) edgeCalls"

section \<open>Nearest node and the A* search (offlineRoutingEngine.ts)\<close>

definition nearestStep ::
  "Coordinates \<Rightarrow> GraphNode option \<times> num \<Rightarrow> GraphNode \<Rightarrow> GraphNode option \<times> num" where
  "nearestStep target acc node =
     (let dist = calculateDistance target node
      in if num_less (Fin dist) (snd acc) then (Some node, Fin dist) else acc)"

definition findNearestNode :: "Graph \<Rightarrow> Coordinates \<Rightarrow> GraphNode option" where
  "findNearestNode g target = fst (foldl (nearestStep target) (None, Infinity) g)"

record SearchState =
  openSet :: "string list"
  cameFrom :: "string \<rightharpoonup> string"
  gScore :: "string \<rightharpoonup> num"
  fScore :: "string \<rightharpoonup> num"

text \<open>\<open>openSet.sort((a, b) => (fScore.get(a) || Infinity) - (fScore.get(b) || Infinity))\<close>:
  the sort is stable, and the comparator is negative exactly when the first key is less
  (\<open>Infinity - Infinity\<close> is \<open>NaN\<close>, which the sort reads as equal).\<close>

fun insertByF :: "(string \<rightharpoonup> num) \<Rightarrow> string \<Rightarrow> string list \<Rightarrow> string list" where
  "insertByF f x [] = [x]"
| "insertByF f x (y # ys) =
     (if num_less (orInfinity (f y)) (orInfinity (f x)) then y # insertByF f x ys
      else x # y # ys)"

definition sortOpenSet :: "(string \<rightharpoonup> num) \<Rightarrow> string list \<Rightarrow> string list" where
  "sortOpenSet f xs = foldr (insertByF f) xs []"

text \<open>\<open>reconstructPath\<close>: the loop \<open>while (curr)\<close> follows the back-pointers until
  \<open>cameFrom.get\<close> yields \<open>undefined\<close> (or the empty string, which is falsy too) and
  puts each node's coordinate in front of the path.  A cyclic \<open>cameFrom\<close> makes it run
  forever: not returning is the value \<open>None\<close>.  Reading \<open>lat\<close> of a node that
  \<open>graph.get\<close> does not find throws a \<open>TypeError\<close>.\<close>

partial_function (option) reconstructLoop ::
  "Graph \<Rightarrow> (string \<rightharpoonup> string) \<Rightarrow> string option \<Rightarrow> Coordinates list
     \<Rightarrow> (error + Coordinates list) option" where
  "reconstructLoop g cf curr' path =
     (case curr' of
        None \<Rightarrow> Some (Inr path)
      | Some c \<Rightarrow>
          if c = [] then Some (Inr path)
          else (case graph_get g c of
                  None \<Rightarrow> Some (Inl TypeError)
                | Some node \<Rightarrow>
                    reconstructLoop g cf (cf c) (\<lparr> lat = lat node, lng = lng node \<rparr> # path)))"

definition reconstructPath ::
  "Graph \<Rightarrow> (string \<rightharpoonup> string) \<Rightarrow> string \<Rightarrow> Coordinates \<Rightarrow> Coordinates
     \<Rightarrow> (error + Coordinates list) option" where
  "reconstructPath g cf currentId originalStart originalEnd =
     (case reconstructLoop g cf (Some currentId) [] of
        None \<Rightarrow> None
      | Some (Inl e) \<Rightarrow> Some (Inl e)
      | Some (Inr path) \<Rightarrow> Some (Inr ((originalStart # path) @ [originalEnd])))"

definition relaxNeighbor ::
  "Graph \<Rightarrow> GraphNode \<Rightarrow> RoutingOptions option \<Rightarrow> string \<Rightarrow> SearchState \<Rightarrow> GraphEdge
     \<Rightarrow> error + SearchState" where
  "relaxNeighbor g endNode options currentId st neighbor =
     (let tentativeG =
            num_add (orInfinity (gScore st currentId)) (Fin (edgeCost options neighbor))
      in if num_less tentativeG (orInfinity (gScore st (nodeId neighbor))) then
           (case graph_get g (nodeId neighbor) of
              None \<Rightarrow> Inl TypeError
            | Some neighborNode \<Rightarrow>
                Inr (st\<lparr> cameFrom := (cameFrom st)(nodeId neighbor \<mapsto> currentId),
                         gScore := (gScore st)(nodeId neighbor \<mapsto> tentativeG),
                         fScore := (fScore st)(nodeId neighbor \<mapsto>
                            num_add tentativeG (Fin (calculateDistance neighborNode endNode))),
                         openSet := (if nodeId neighbor \<in> set (openSet st) then openSet st
                                     else openSet st @ [nodeId neighbor]) \<rparr>))
         else Inr st)"

fun relaxAll ::
  "Graph \<Rightarrow> GraphNode \<Rightarrow> RoutingOptions option \<Rightarrow> string \<Rightarrow> SearchState \<Rightarrow> GraphEdge list
     \<Rightarrow> error + SearchState" where
  "relaxAll g endNode options currentId st [] = Inr st"
| "relaxAll g endNode options currentId st (neighbor # rest) =
     (case relaxNeighbor g endNode options currentId st neighbor of
        Inl e \<Rightarrow> Inl e
      | Inr st' \<Rightarrow> relaxAll g endNode options currentId st' rest)"

text \<open>The main loop \<open>while (openSet.length > 0)\<close>.  Leaving the loop with an empty open
  set returns the direct line.\<close>

partial_function (option) aStarLoop ::
  "Graph \<Rightarrow> GraphNode \<Rightarrow> Coordinates \<Rightarrow> Coordinates \<Rightarrow> RoutingOptions option \<Rightarrow> SearchState
     \<Rightarrow> (error + Coordinates list) option" where
  "aStarLoop g endNode start endp options st =
     (if openSet st = [] then Some (Inr [start, endp])
      else
        (let sorted = sortOpenSet (fScore st) (openSet st);
             currentId = hd sorted;
             st1 = st\<lparr> openSet := tl sorted \<rparr>
         in if currentId = id' endNode then
              reconstructPath g (cameFrom st1) currentId start endp
            else
              (case graph_get g currentId of
                 None \<Rightarrow> Some (Inl TypeError)
               | Some current \<Rightarrow>
                   (case relaxAll g endNode options currentId st1 (neighbors current) of
                      Inl e \<Rightarrow> Some (Inl e)
                    | Inr st2 \<Rightarrow> aStarLoop g endNode start endp options st2))))"

definition initialState :: "Graph \<Rightarrow> GraphNode \<Rightarrow> GraphNode \<Rightarrow> SearchState" where
  "initialState g startNode endNode =
     \<lparr> openSet = [id' startNode],
       cameFrom = Map.empty,
       gScore = (map_of (map (\<lambda>n. (id' n, Infinity)) g))(id' startNode \<mapsto> Fin 0),
       fScore = (map_of (map (\<lambda>n. (id' n, Infinity)) g))
                  (id' startNode \<mapsto> Fin (calculateDistance startNode endNode)) \<rparr>"

definition calculateOfflineRoute ::
  "Graph \<Rightarrow> Coordinates \<Rightarrow> Coordinates \<Rightarrow> RoutingOptions option
     \<Rightarrow> (error + Coordinates list) option" where
  "calculateOfflineRoute g start endp options =
     (case findNearestNode g start of
        None \<Rightarrow> Some (Inr [start, endp])
      | Some startNode \<Rightarrow>
          (case findNearestNode g endp of
             None \<Rightarrow> Some (Inr [start, endp])
           | Some endNode \<Rightarrow>
               if id' startNode = id' endNode then Some (Inr [start, endp])
               else aStarLoop g endNode start endp options
                      (initialState g startNode endNode)))"

section \<open>Multi-waypoint offline fallback (routingService.ts)\<close>

text \<open>The loop \<open>for (let i = 0; i < allPoints.length - 1; i++)\<close> of
  \<open>calculateOfflineRouteWithWaypoints\<close>; \<open>segmentRoute.slice(1)\<close> is \<open>drop 1\<close>.\<close>

function routeLoop ::
  "Graph \<Rightarrow> Coordinates list \<Rightarrow> RoutingOptions option \<Rightarrow> nat \<Rightarrow> Coordinates list
     \<Rightarrow> (error + Coordinates list) option" where
  "routeLoop g allPoints options i fullRoute =
     (if i < length allPoints - 1 then
        (case calculateOfflineRoute g (allPoints ! i) (allPoints ! (i + 1)) options of
           None \<Rightarrow> None
         | Some (Inl e) \<Rightarrow> Some (Inl e)
         | Some (Inr segmentRoute) \<Rightarrow>
             routeLoop g allPoints options (i + 1)
               (if 0 < i then fullRoute @ drop 1 segmentRoute else fullRoute @ segmentRoute))
      else Some (Inr fullRoute))"
  by pat_completeness auto
termination
  by (relation "measure (\<lambda>(g, allPoints, options, i, fullRoute). length allPoints - 1 - i)") auto

declare routeLoop.simps [simp del]

definition calculateOfflineRouteWithWaypoints ::
  "Graph \<Rightarrow> Coordinates \<Rightarrow> Coordinates \<Rightarrow> Coordinates list \<Rightarrow> RoutingOptions option
     \<Rightarrow> (error + Coordinates list) option" where
  "calculateOfflineRouteWithWaypoints g start endp waypoints options =
     routeLoop g ([start] @ waypoints @ [endp]) options 0 []"

section \<open>Live navigation loop: heading (App.tsx, animate)\<close>

text \<open>The loops \<open>while (v < -180) v += 360\<close> and \<open>while (v > 180) v -= 360\<close>, which
  the source applies to \<open>headingError\<close> and, in the maneuver scan, to \<open>diff\<close>.\<close>

function wrapBelow :: "real \<Rightarrow> real" where
  "wrapBelow v = (if v < - 180 then wrapBelow (v + 360) else v)"
  by pat_completeness auto
termination
proof (relation "measure (\<lambda>v. nat \<lceil>(- 180 - v) / 360\<rceil>)")
  show "wf (measure (\<lambda>v. nat \<lceil>(- 180 - v) / 360\<rceil>))" by simp
next
  fix v :: real
  assume "v < - 180"
  then have pos: "0 < (- 180 - v) / 360" by simp
  have "(- 180 - (v + 360)) / 360 = (- 180 - v) / 360 - 1" by (simp add: field_simps)
  then have "\<lceil>(- 180 - (v + 360)) / 360\<rceil> = \<lceil>(- 180 - v) / 360\<rceil> - 1"
    by (simp only: ceiling_diff_one)
  moreover have "0 < \<lceil>(- 180 - v) / 360\<rceil>" using pos by (simp add: ceiling_less_iff)
  ultimately show "(v + 360, v) \<in> measure (\<lambda>v. nat \<lceil>(- 180 - v) / 360\<rceil>)" by simp
qed

function wrapAbove :: "real \<Rightarrow> real" where
  "wrapAbove v = (if 180 < v then wrapAbove (v - 360) else v)"
  by pat_completeness auto
termination
proof (relation "measure (\<lambda>v. nat \<lceil>(v - 180) / 360\<rceil>)")
  show "wf (measure (\<lambda>v. nat \<lceil>(v - 180) / 360\<rceil>))" by simp
next
  fix v :: real
  assume "180 < v"
  then have pos: "0 < (v - 180) / 360" by simp
  have "(v - 360 - 180) / 360 = (v - 180) / 360 - 1" by (simp add: field_simps)
  then have "\<lceil>(v - 360 - 180) / 360\<rceil> = \<lceil>(v - 180) / 360\<rceil> - 1"
    by (simp only: ceiling_diff_one)
  moreover have "0 < \<lceil>(v - 180) / 360\<rceil>" using pos by (simp add: ceiling_less_iff)
  ultimately show "(v - 360, v) \<in> measure (\<lambda>v. nat \<lceil>(v - 180) / 360\<rceil>)" by simp
qed

declare wrapBelow.simps [simp del] wrapAbove.simps [simp del]

definition angleDiff :: "real \<Rightarrow> real \<Rightarrow> real" where
  "angleDiff a b = wrapAbove (wrapBelow (a - b))"

text \<open>The heading a tick starts from:
  \<open>calculatedHeading = ((sensors.alpha || 0) + calibration.alphaOffset + 360) % 360\<close>;
  a missing reading (\<open>null\<close>) counts as \<open>0\<close>.\<close>

definition rawHeading :: "real option \<Rightarrow> real \<Rightarrow> real" where
  "rawHeading alpha alphaOffset =
     js_rem ((case alpha of None \<Rightarrow> 0 | Some a \<Rightarrow> a) + alphaOffset + 360) 360"

definition maxTurnRate :: "real \<Rightarrow> real" where
  "maxTurnRate currentSpeed = max 35 (120 - (currentSpeed * 2.5))"

definition turnStep :: "real \<Rightarrow> real \<Rightarrow> real" where
  "turnStep currentSpeed deltaTime = maxTurnRate currentSpeed * deltaTime"

text \<open>The steering update of route-following mode: \<open>turnTowards\<close> is the heading after
  the \<open>if\<close> on \<open>Math.abs(headingError) <= turnStep\<close>, \<open>steerHeading\<close> the heading after
  the following \<open>calculatedHeading = (calculatedHeading + 360) % 360\<close>.\<close>

definition turnTowards :: "real \<Rightarrow> real \<Rightarrow> real \<Rightarrow> real \<Rightarrow> real" where
  "turnTowards calculatedHeading bearingToSteer currentSpeed deltaTime =
     (let headingError = angleDiff bearingToSteer calculatedHeading
      in if \<bar>headingError\<bar> \<le> turnStep currentSpeed deltaTime then bearingToSteer
         else calculatedHeading + sgn headingError * turnStep currentSpeed deltaTime)"

definition steerHeading :: "real \<Rightarrow> real \<Rightarrow> real \<Rightarrow> real \<Rightarrow> real" where
  "steerHeading calculatedHeading bearingToSteer currentSpeed deltaTime =
     js_rem (turnTowards calculatedHeading bearingToSteer currentSpeed deltaTime + 360) 360"

text \<open>The heading of one route-following tick: \<open>calculatedHeading\<close> is a local variable
  of \<open>animate\<close>, set from the sensor reading and then steered.\<close>

definition tickHeading :: "real option \<Rightarrow> real \<Rightarrow> real \<Rightarrow> real \<Rightarrow> real \<Rightarrow> real" where
  "tickHeading alpha alphaOffset bearingToSteer currentSpeed deltaTime =
     steerHeading (rawHeading alpha alphaOffset) bearingToSteer currentSpeed deltaTime"

section \<open>Live navigation loop: next-waypoint index (App.tsx)\<close>

datatype NavigationMode = IDLE | NAVIGATING | OFFLINE_CACHING

record NavLoop =
  nextRoutePointIndexRef :: nat
  routeCoordinates :: "Coordinates list"
  currentLocation :: Coordinates
  currentSpeed :: real
  isSimulatingMove :: bool
  navState :: NavigationMode

definition targetIdx :: "NavLoop \<Rightarrow> nat" where
  "targetIdx st =
     (if length (routeCoordinates st) \<le> nextRoutePointIndexRef st
      then length (routeCoordinates st) - 1 else nextRoutePointIndexRef st)"

text \<open>The part of one \<open>animate\<close> tick that touches \<open>nextRoutePointIndexRef\<close>, for
  a tick with a previous time stamp (the very first frame only records its time).\<close>

definition advanceWaypoint :: "NavLoop \<Rightarrow> NavLoop" where
  "advanceWaypoint st =
     (if isSimulatingMove st \<and> navState st = NAVIGATING \<and> 1 < length (routeCoordinates st) then
        (let distToNext =
               calculateDistance (currentLocation st) (routeCoordinates st ! targetIdx st)
         in if distToNext < max 5 (currentSpeed st) then
              (if nextRoutePointIndexRef st < length (routeCoordinates st) - 1
               then st\<lparr> nextRoutePointIndexRef := nextRoutePointIndexRef st + 1 \<rparr>
               else st)
            else st)
      else st)"

text \<open>Between two ticks the position, the speed, the simulation switch and the
  navigation mode may have changed; a tick reads their current values.\<close>

definition tick :: "NavLoop \<Rightarrow> Coordinates \<times> real \<times> bool \<times> NavigationMode \<Rightarrow> NavLoop" where
  "tick st env =
     (case env of (loc, speed, sim, nav) \<Rightarrow>
        advanceWaypoint (st\<lparr> currentLocation := loc, currentSpeed := speed,
                             isSimulatingMove := sim, navState := nav \<rparr>))"

definition runTicks ::
  "NavLoop \<Rightarrow> (Coordinates \<times> real \<times> bool \<times> NavigationMode) list \<Rightarrow> NavLoop" where
  "runTicks st envs = foldl tick st envs"

text \<open>\<open>setRouteCoordinates(route)\<close> followed by the effect that depends on
  \<open>routeCoordinates\<close>.\<close>

definition installRoute :: "NavLoop \<Rightarrow> Coordinates list \<Rightarrow> NavLoop" where
  "installRoute st route = st\<lparr> routeCoordinates := route, nextRoutePointIndexRef := 1 \<rparr>"

section \<open>Maneuver detection: the forward scan (App.tsx)\<close>

text \<open>\<open>routeCoordinates[i]\<close> is \<open>undefined\<close> past the end of the array; the geodesic
  functions then read \<open>lat\<close> of \<open>undefined\<close>, which throws a \<open>TypeError\<close>.\<close>

definition routeAt :: "'a list \<Rightarrow> nat \<Rightarrow> 'a option" where
  "routeAt xs i = (if i < length xs then Some (xs ! i) else None)"

text \<open>The variables of the scan.  \<open>visited\<close> is a ghost field: the loop indices \<open>i\<close> whose
  body read the route (at \<open>i\<close>, \<open>i + 1\<close> and \<open>i + 2\<close>), in order.  The indices are natural
  numbers: for a route of fewer than two points \<open>routeCoordinates.length - 2\<close> is negative
  in the source and \<open>0\<close> here, and in both readings the loop body does not run.\<close>

record ScanState =
  distToTurn :: real
  maneuverFound :: bool
  mType :: string
  mText :: string
  lookAheadDist :: real
  visited :: "nat list"

definition classify :: "real \<Rightarrow> string \<times> string" where
  "classify diff =
     (if 100 < \<bar>diff\<bar> then
        (if diff < 0 then (''sharp-left'', ''Sharp left turn'')
         else (''sharp-right'', ''Sharp right turn''))
      else if 45 < \<bar>diff\<bar> then
        (if diff < 0 then (''left'', ''Turn left'') else (''right'', ''Turn right''))
      else
        (if diff < 0 then (''slight-left'', ''Keep left'')
         else (''slight-right'', ''Keep right'')))"

function scan :: "Coordinates list \<Rightarrow> nat \<Rightarrow> nat \<Rightarrow> ScanState \<Rightarrow> error + ScanState" where
  "scan route idx i st =
     (if i < min (length route - 2) (idx + 30) then
        (if 1500 < lookAheadDist st then Inr st
         else
           (case routeAt route i of
              None \<Rightarrow> Inl TypeError
            | Some pCurrent \<Rightarrow>
                (case routeAt route (i + 1) of
                   None \<Rightarrow> Inl TypeError
                 | Some pNext \<Rightarrow>
                     (case routeAt route (i + 2) of
                        None \<Rightarrow> Inl TypeError
                      | Some pAfter \<Rightarrow>
                          (let st1 = st\<lparr> visited := visited st @ [i] \<rparr>;
                               segDist = calculateDistance pCurrent pNext;
                               b1 = calculateBearing pCurrent pNext;
                               b2 = calculateBearing pNext pAfter;
                               diff = angleDiff b2 b1
                           in if 30 < \<bar>diff\<bar> then
                                Inr (st1\<lparr> distToTurn := distToTurn st1 + lookAheadDist st1,
                                           maneuverFound := True,
                                           mType := fst (classify diff),
                                           mText := snd (classify diff) \<rparr>)
                              else scan route idx (i + 1)
                                     (st1\<lparr> lookAheadDist := lookAheadDist st1 + segDist \<rparr>))))))
      else Inr st)"
  by pat_completeness auto
termination
  by (relation "measure (\<lambda>(route, idx, i, st). min (length route - 2) (idx + 30) - i)") auto

declare scan.simps [simp del]

section \<open>Notions used to state the properties\<close>

text \<open>The coordinate \<open>{ lat: node.lat, lng: node.lng }\<close> of a node.\<close>

definition toCoord :: "GraphNode \<Rightarrow> Coordinates" where
  "toCoord n = \<lparr> lat = lat n, lng = lng n \<rparr>"

text \<open>A finite back-pointer chain, listed from the node the reconstruction starts at back
  to the node without a (truthy) back-pointer.\<close>

fun backChain :: "(string \<rightharpoonup> string) \<Rightarrow> string list \<Rightarrow> bool" where
  "backChain cf [] = False"
| "backChain cf [c] = (c \<noteq> [] \<and> (cf c = None \<or> cf c = Some []))"
| "backChain cf (c # d # rest) = (c \<noteq> [] \<and> cf c = Some d \<and> backChain cf (d # rest))"




text \<open>The concatenation as the specification words it: the first segment keeps all of its
  points, every later segment drops its own first point.\<close>

fun concatSegments :: "Coordinates list list \<Rightarrow> Coordinates list" where
  "concatSegments [] = []"
| "concatSegments (first # others) = first @ concat (map (drop 1) others)"

section \<open>Edge cost: the penalties multiply\<close>

text \<open>
  C3.  For every edge and every routing-options value the adjusted edge cost is the
  physical weight times 3 if the edge is unpaved and \<open>preferPaved\<close> is set, times 5 if the
  edge is hilly and \<open>avoidHills\<close> is set, times 2 if the edge is paved and \<open>allowHighways\<close>
  is explicitly false; the factors are independent and multiply, so an unpaved hilly edge
  under \<open>preferPaved\<close> and \<open>avoidHills\<close> costs 15 times its weight.
\<close>

theorem edgeCost_penalties:
  "edgeCost (Some opt) e =
     weight e
       * (if preferPaved opt \<and> surface e = unpaved then 3 else 1)
       * (if avoidHills opt \<and> isHilly e then 5 else 1)
       * (if \<not> allowHighways opt \<and> surface e = paved then 2 else 1)
   \<and> edgeCost None e = weight e
   \<and> (preferPaved opt \<and> avoidHills opt \<and> surface e = unpaved \<and> isHilly e
        \<longrightarrow> edgeCost (Some opt) e = 15 * weight e)"
  by (simp add: edgeCost_def Let_def)

theorem edgeCost_penalties_witness:
  "edgeCost (Some \<lparr> preferPaved = True, avoidHills = True, allowHighways = True \<rparr>)
      \<lparr> nodeId = ''n3'', weight = 500, surface = unpaved, isHilly = True \<rparr> = 7500"
  using edgeCost_penalties
    [of "\<lparr> preferPaved = True, avoidHills = True, allowHighways = True \<rparr>"
        "\<lparr> nodeId = ''n3'', weight = 500, surface = unpaved, isHilly = True \<rparr>"]
  by simp

section \<open>The path search never relaxes an edge\<close>

lemma nearest_fold_mem:
  "fst (foldl (nearestStep t) acc g) = Some n \<Longrightarrow> fst acc = Some n \<or> n \<in> set g"
proof (induction g arbitrary: acc)
  case Nil
  then show ?case by simp
next
  case (Cons a g)
  from Cons.IH [of "nearestStep t acc a"] Cons.prems
  have "fst (nearestStep t acc a) = Some n \<or> n \<in> set g" by simp
  then show ?case
    by (auto simp: nearestStep_def Let_def split: if_splits)
qed

lemma findNearestNode_mem: "findNearestNode g t = Some n \<Longrightarrow> n \<in> set g"
  using nearest_fold_mem [of t "(None, Infinity)" g n] by (simp add: findNearestNode_def)

lemma graph_get_mem: "n \<in> set g \<Longrightarrow> \<exists>m. graph_get g (id' n) = Some m"
  unfolding graph_get_def by (cases "find (\<lambda>m. id' m = id' n) g") (auto simp: find_None_iff)


text \<open>The g-score of the start node is \<open>0\<close>, and \<open>0 || Infinity\<close> is \<open>Infinity\<close>: the
  tentative score of every neighbour of the start node is \<open>Infinity\<close>, which is not less
  than any score, so the neighbour loop changes nothing.\<close>

lemma relaxNeighbor_blocked:
  "orInfinity (gScore st c) = Infinity \<Longrightarrow> relaxNeighbor g en opts c st nb = Inr st"
  by (simp add: relaxNeighbor_def Let_def)

lemma relaxAll_blocked:
  "orInfinity (gScore st c) = Infinity \<Longrightarrow> relaxAll g en opts c st nbs = Inr st"
  by (induction nbs) (simp_all add: relaxNeighbor_blocked)

lemma aStarLoop_empty:
  "openSet st = [] \<Longrightarrow> aStarLoop g en s e opts st = Some (Inr [s, e])"
  by (subst aStarLoop.simps) simp

lemma aStarLoop_initial:
  assumes "sn \<in> set g" and "id' sn \<noteq> id' en"
  shows "aStarLoop g en s e opts (initialState g sn en) = Some (Inr [s, e])"
proof -
  obtain cur where cur: "graph_get g (id' sn) = Some cur"
    using graph_get_mem [OF assms(1)] by blast
  let ?st1 = "(initialState g sn en)\<lparr> openSet := [] \<rparr>"
  have blocked: "orInfinity (gScore ?st1 (id' sn)) = Infinity"
    by (simp add: initialState_def)
  have "aStarLoop g en s e opts (initialState g sn en) = aStarLoop g en s e opts ?st1"
    apply (subst aStarLoop.simps)
    using assms(2) cur relaxAll_blocked [OF blocked]
    apply (simp add: Let_def sortOpenSet_def initialState_def)
    done
  then show ?thesis by (simp add: aStarLoop_empty)
qed

lemma calculateOfflineRoute_direct:
  "calculateOfflineRoute g s e opts = Some (Inr [s, e])"
  by (auto simp: calculateOfflineRoute_def aStarLoop_initial
      dest: findNearestNode_mem split: option.splits)

section \<open>The route keeps the caller's endpoints\<close>

text \<open>
  C1.  For every start, end and routing options, \<open>calculateOfflineRoute\<close> returns a
  non-empty route whose first coordinate is the caller's start and whose last coordinate
  is the caller's end; when the start or the end resolves to no graph node, when both
  resolve to the same node, and when the search leaves its loop with an empty open set,
  the route is exactly the direct line \<open>[start, end]\<close>.
\<close>

theorem calculateOfflineRoute_endpoints:
  "\<exists>route. calculateOfflineRoute g start endp options = Some (Inr route)
      \<and> route \<noteq> [] \<and> hd route = start \<and> last route = endp
      \<and> (findNearestNode g start = None \<or> findNearestNode g endp = None
           \<longrightarrow> route = [start, endp])
      \<and> (\<forall>sn en. findNearestNode g start = Some sn \<and> findNearestNode g endp = Some en
             \<and> id' sn = id' en \<longrightarrow> route = [start, endp])
      \<and> (\<forall>en st. openSet st = []
             \<longrightarrow> aStarLoop g en start endp options st = Some (Inr [start, endp]))"
  by (simp add: calculateOfflineRoute_direct aStarLoop_empty)

theorem calculateOfflineRoute_endpoints_witness:
  "findNearestNode [] \<lparr> lat = 26.9120, lng = 75.7870 \<rparr> = None
   \<and> calculateOfflineRoute [] \<lparr> lat = 26.9120, lng = 75.7870 \<rparr>
        \<lparr> lat = 26.9125, lng = 75.7925 \<rparr> None
      = Some (Inr [\<lparr> lat = 26.9120, lng = 75.7870 \<rparr>, \<lparr> lat = 26.9125, lng = 75.7925 \<rparr>])
   \<and> (\<exists>route. calculateOfflineRoute graph \<lparr> lat = 26.9120, lng = 75.7870 \<rparr>
          \<lparr> lat = 26.9125, lng = 75.7925 \<rparr> None = Some (Inr route)
        \<and> hd route = \<lparr> lat = 26.9120, lng = 75.7870 \<rparr>
        \<and> last route = \<lparr> lat = 26.9125, lng = 75.7925 \<rparr>)"
  using calculateOfflineRoute_endpoints
    [of "[]" "\<lparr> lat = 26.9120, lng = 75.7870 \<rparr>" "\<lparr> lat = 26.9125, lng = 75.7925 \<rparr>" None]
    calculateOfflineRoute_endpoints
    [of graph "\<lparr> lat = 26.9120, lng = 75.7870 \<rparr>" "\<lparr> lat = 26.9125, lng = 75.7925 \<rparr>" None]
  by (auto simp: findNearestNode_def)

section \<open>Multi-waypoint fallback: the segments are chained\<close>

lemma routeLoop_tail:
  "0 < i \<Longrightarrow> i < length pts \<Longrightarrow>
   routeLoop g pts opts i acc = Some (Inr (acc @ drop (i + 1) pts))"
proof (induction "length pts - i" arbitrary: i acc)
  case 0
  then show ?case by simp
next
  case (Suc k)
  show ?case
  proof (cases "i < length pts - 1")
    case True
    then have step: "routeLoop g pts opts i acc
        = routeLoop g pts opts (i + 1) (acc @ [pts ! (i + 1)])"
      using Suc.prems by (subst routeLoop.simps) (simp add: calculateOfflineRoute_direct)
    have "routeLoop g pts opts (i + 1) (acc @ [pts ! (i + 1)])
            = Some (Inr ((acc @ [pts ! (i + 1)]) @ drop (i + 1 + 1) pts))"
      using Suc.hyps(2) True by (intro Suc.hyps(1)) auto
    moreover have "drop (i + 1) pts = pts ! (i + 1) # drop (i + 1 + 1) pts"
      using True by (simp add: Cons_nth_drop_Suc)
    ultimately show ?thesis using step by simp
  next
    case False
    then show ?thesis using Suc.prems by (subst routeLoop.simps) simp
  qed
qed

lemma routeLoop_all:
  assumes "2 \<le> length pts"
  shows "routeLoop g pts opts 0 [] = Some (Inr pts)"
proof -
  have "routeLoop g pts opts 0 [] = routeLoop g pts opts 1 [pts ! 0, pts ! 1]"
    using assms by (subst routeLoop.simps) (simp add: calculateOfflineRoute_direct)
  also have "\<dots> = Some (Inr ([pts ! 0, pts ! 1] @ drop 2 pts))"
    using routeLoop_tail [of 1 pts g opts "[pts ! 0, pts ! 1]"] assms
    by (simp add: numeral_2_eq_2)
  also have "[pts ! 0, pts ! 1] @ drop 2 pts = pts"
  proof -
    obtain a b rest where "pts = a # b # rest"
      using assms by (cases pts; cases "tl pts") auto
    then show ?thesis by simp
  qed
  finally show ?thesis .
qed

lemma withWaypoints_chain:
  "calculateOfflineRouteWithWaypoints g s e wps opts = Some (Inr (s # wps @ [e]))"
  using routeLoop_all [of "s # wps @ [e]" g opts]
  by (simp add: calculateOfflineRouteWithWaypoints_def)

lemma concat_direct_segments:
  "length ys < length xs \<Longrightarrow>
   concat (map (drop 1) (map (\<lambda>(a, b). [a, b]) (zip xs ys))) = ys"
  by (induction xs ys rule: list_induct2') auto

lemma concatSegments_direct:
  "concatSegments (map (\<lambda>(a, b). [a, b]) (zip (s # wps @ [e]) (wps @ [e]))) = s # wps @ [e]"
proof (cases wps)
  case Nil
  then show ?thesis by simp
next
  case (Cons w ws)
  have "concat (map (drop 1) (map (\<lambda>(a, b). [a, b]) (zip (w # ws @ [e]) (ws @ [e]))))
          = ws @ [e]"
    by (rule concat_direct_segments) simp
  then show ?thesis using Cons by simp
qed

text \<open>
  C4.  For every start, end, ordered waypoint list and options, the offline fallback
  computes one route per consecutive pair of the chain start, waypoints, end, with the
  same options, and returns their concatenation in which the first segment contributes
  all of its points and every later segment all but its first; the result is non-empty
  and runs through the whole chain, each junction appearing once.
\<close>

theorem offline_waypoint_chain:
  "\<exists>segs. length segs = length waypoints + 1
     \<and> map (\<lambda>(a, b). calculateOfflineRoute g a b options)
          (zip (start # waypoints @ [endp]) (waypoints @ [endp]))
        = map (\<lambda>seg. Some (Inr seg)) segs
     \<and> calculateOfflineRouteWithWaypoints g start endp waypoints options
        = Some (Inr (concatSegments segs))
     \<and> concatSegments segs \<noteq> []
     \<and> concatSegments segs = start # waypoints @ [endp]"
proof -
  let ?segs = "map (\<lambda>(a, b). [a, b]) (zip (start # waypoints @ [endp]) (waypoints @ [endp]))"
  have "length ?segs = length waypoints + 1" by simp
  moreover have "map (\<lambda>(a, b). calculateOfflineRoute g a b options)
          (zip (start # waypoints @ [endp]) (waypoints @ [endp]))
        = map (\<lambda>seg. Some (Inr seg)) ?segs"
    by (simp add: calculateOfflineRoute_direct split_def)
  moreover have "concatSegments ?segs = start # waypoints @ [endp]"
    by (rule concatSegments_direct)
  ultimately show ?thesis
    using withWaypoints_chain [of g start endp waypoints options]
    by (intro exI [of _ ?segs]) simp
qed

theorem offline_waypoint_chain_witness:
  "calculateOfflineRouteWithWaypoints graph \<lparr> lat = 26.9120, lng = 75.7870 \<rparr>
      \<lparr> lat = 26.9169, lng = 75.7973 \<rparr> [\<lparr> lat = 26.9125, lng = 75.7925 \<rparr>] None
    = Some (Inr [\<lparr> lat = 26.9120, lng = 75.7870 \<rparr>, \<lparr> lat = 26.9125, lng = 75.7925 \<rparr>,
                 \<lparr> lat = 26.9169, lng = 75.7973 \<rparr>])"
  using offline_waypoint_chain
    [of "[\<lparr> lat = 26.9125, lng = 75.7925 \<rparr>]" graph None "\<lparr> lat = 26.9120, lng = 75.7870 \<rparr>"
        "\<lparr> lat = 26.9169, lng = 75.7973 \<rparr>"]
  by auto

section \<open>Path reconstruction\<close>

lemma reconstructLoop_chain:
  "backChain cf (map id' ns) \<Longrightarrow> list_all (\<lambda>n. graph_get g (id' n) = Some n) ns \<Longrightarrow>
   reconstructLoop g cf (Some (id' (hd ns))) path = Some (Inr (map toCoord (rev ns) @ path))"
proof (induction ns arbitrary: path)
  case Nil
  then show ?case by simp
next
  case (Cons n ns)
  show ?case
  proof (cases ns)
    case Nil
    with Cons.prems show ?thesis
      apply (subst reconstructLoop.simps)
      apply (auto simp: toCoord_def)
       apply (subst reconstructLoop.simps, simp)+
      done
  next
    case (Cons m ms)
    with Cons.prems Cons.IH [of "toCoord n # path"] show ?thesis
      apply (subst reconstructLoop.simps)
      apply (auto simp: toCoord_def)
      done
  qed
qed

lemma graph_get_pushNeighbor:
  "graph_get (pushNeighbor g k e) x =
     map_option (\<lambda>n. if id' n = k then n\<lparr> neighbors := neighbors n @ [e] \<rparr> else n)
       (graph_get g x)"
  unfolding graph_get_def pushNeighbor_def by (induction g) auto

lemma coord_pushNeighbor:
  "map_option toCoord (graph_get (pushNeighbor g k e) x) = map_option toCoord (graph_get g x)"
  by (cases "graph_get g x") (auto simp: graph_get_pushNeighbor toCoord_def)

lemma coord_addEdge:
  "map_option toCoord (graph_get (addEdge g a b s h) x) = map_option toCoord (graph_get g x)"
  by (simp add: addEdge_def Let_def coord_pushNeighbor split: option.splits)

lemma coord_addEdges:
  "map_option toCoord (graph_get
      (foldl (\<lambda>g c. case c of (id1, id2, surf, hilly) \<Rightarrow> addEdge g id1 id2 surf hilly) g cs) x)
   = map_option toCoord (graph_get g x)"
  by (induction cs arbitrary: g) (auto simp: coord_addEdge)

lemma graph_coord_n1:
  "map_option toCoord (graph_get graph ''n1'') = Some \<lparr> lat = 26.9124, lng = 75.7873 \<rparr>"
  unfolding graph_def coord_addEdges
  by (simp add: RAW_NODES_def populate_def graph_set_def graph_get_def toCoord_def)

text \<open>Taken by itself, \<open>reconstructPath\<close> puts the caller's start in front of the
  coordinates of the back-pointer chain and the caller's end behind them.\<close>

lemma reconstructPath_chain:
  assumes "backChain cf (map id' ns)"
    and "list_all (\<lambda>n. graph_get g (id' n) = Some n) ns"
  shows "reconstructPath g cf (id' (hd ns)) originalStart originalEnd
           = Some (Inr (originalStart # map toCoord (rev ns) @ [originalEnd]))"
  using reconstructLoop_chain [OF assms, of "[]"] by (simp add: reconstructPath_def)

section \<open>No search succeeds: two adjacent nodes\<close>























section \<open>The path search terminates\<close>

lemma aStarLoop_initial_same:
  assumes "sn \<in> set g" and "id' sn = id' en"
  shows "\<exists>r. aStarLoop g en s e opts (initialState g sn en) = Some r"
proof -
  obtain cur where cur: "graph_get g (id' sn) = Some cur"
    using graph_get_mem [OF assms(1)] by blast
  have "\<exists>r. reconstructLoop g Map.empty (Some (id' sn)) [] = Some (Inr r)"
  proof (cases "id' sn = []")
    case True
    have "reconstructLoop g Map.empty (Some []) [] = Some (Inr [])"
      by (subst reconstructLoop.simps) simp
    then show ?thesis by (simp add: True)
  next
    case False
    have "reconstructLoop g Map.empty None [\<lparr> lat = lat cur, lng = lng cur \<rparr>]
            = Some (Inr [\<lparr> lat = lat cur, lng = lng cur \<rparr>])"
      by (subst reconstructLoop.simps) simp
    moreover have "reconstructLoop g Map.empty (Some (id' sn)) []
            = reconstructLoop g Map.empty None [\<lparr> lat = lat cur, lng = lng cur \<rparr>]"
      using False by (subst reconstructLoop.simps) (simp add: cur)
    ultimately show ?thesis by simp
  qed
  then have "\<exists>r. reconstructPath g Map.empty (id' sn) s e = Some r"
    by (auto simp: reconstructPath_def)
  moreover have "aStarLoop g en s e opts (initialState g sn en)
          = reconstructPath g Map.empty (id' sn) s e"
    by (subst aStarLoop.simps)
      (simp add: Let_def sortOpenSet_def initialState_def assms(2) [symmetric])
  ultimately show ?thesis by simp
qed

text \<open>
  C9.  \<open>calculateOfflineRoute\<close> terminates for every input: it returns a route (it neither
  runs forever nor throws), and the main loop over the open set finishes from the initial
  state built for any start node of the graph and any end node.
\<close>

theorem calculateOfflineRoute_terminates:
  "(\<exists>route. calculateOfflineRoute g start endp options = Some (Inr route))
   \<and> (\<forall>startNode endNode. startNode \<in> set g
         \<longrightarrow> (\<exists>r. aStarLoop g endNode start endp options
                      (initialState g startNode endNode) = Some r))"
proof -
  have "\<exists>r. aStarLoop g endNode start endp options (initialState g startNode endNode) = Some r"
    if "startNode \<in> set g" for startNode endNode
  proof (cases "id' startNode = id' endNode")
    case True
    with that show ?thesis by (rule aStarLoop_initial_same)
  next
    case False
    with that show ?thesis by (simp add: aStarLoop_initial)
  qed
  then show ?thesis by (simp add: calculateOfflineRoute_direct)
qed

theorem calculateOfflineRoute_terminates_witness:
  "(\<exists>route. calculateOfflineRoute graph \<lparr> lat = 26.9120, lng = 75.7870 \<rparr>
      \<lparr> lat = 26.9169, lng = 75.7973 \<rparr>
      (Some \<lparr> preferPaved = True, avoidHills = False, allowHighways = True \<rparr>)
    = Some (Inr route))
   \<and> (\<exists>startNode r. startNode \<in> set graph
        \<and> aStarLoop graph startNode \<lparr> lat = 26.9120, lng = 75.7870 \<rparr>
             \<lparr> lat = 26.9169, lng = 75.7973 \<rparr>
             (Some \<lparr> preferPaved = True, avoidHills = False, allowHighways = True \<rparr>)
             (initialState graph startNode startNode) = Some r)"
proof -
  obtain a where "graph_get graph ''n1'' = Some a"
    using graph_coord_n1 by auto
  then have mem: "a \<in> set graph"
    by (auto simp: graph_get_def find_Some_iff)
  show ?thesis
    using calculateOfflineRoute_terminates
      [of graph "\<lparr> lat = 26.9120, lng = 75.7870 \<rparr>" "\<lparr> lat = 26.9169, lng = 75.7973 \<rparr>"
          "Some \<lparr> preferPaved = True, avoidHills = False, allowHighways = True \<rparr>"] mem
    by blast
qed

section \<open>The round trip of the geodesic formulas in exact arithmetic\<close>

text \<open>
  The lemmas of this section read the formulas of \<open>calculateNewPosition\<close> and
  \<open>calculateDistance\<close> over the real numbers.  The program evaluates them in double
  precision; how far the rounded results are from the real ones is not modelled, so
  these lemmas bound no error of the program.
\<close>

lemma toRad_toDeg [simp]: "toRad (toDeg x) = x"
  by (simp add: toRad_def toDeg_def)

lemma toRad_diff: "toRad (x - y) = toRad x - toRad y"
  by (simp add: toRad_def field_simps)

lemma toRad_add: "toRad (x + y) = toRad x + toRad y"
  by (simp add: toRad_def field_simps)

lemma cos_atan2: "cos (atan2 y x) * sqrt (x\<^sup>2 + y\<^sup>2) = x"
proof -
  have scale: "x \<noteq> 0 \<Longrightarrow> sqrt (x\<^sup>2 + y\<^sup>2) = \<bar>x\<bar> * sqrt (1 + (y / x)\<^sup>2)"
  proof -
    assume nz: "x \<noteq> 0"
    have "x\<^sup>2 + y\<^sup>2 = x\<^sup>2 * (1 + (y / x)\<^sup>2)"
      using nz by (simp add: field_simps power2_eq_square)
    then show ?thesis by (simp add: real_sqrt_mult)
  qed
  have pos: "0 < sqrt (1 + (y / x)\<^sup>2)"
    by (simp add: add_pos_nonneg)
  consider "0 < x" | "x < 0" | "x = 0" by linarith
  then show ?thesis
  proof cases
    case 1
    then show ?thesis using scale pos by (simp add: atan2_def cos_arctan)
  next
    case 2
    then show ?thesis using scale pos by (simp add: atan2_def cos_arctan)
  next
    case 3
    then show ?thesis by (simp add: atan2_def)
  qed
qed

lemma sphere_identity:
  fixes A B sd cd st ct :: real
  assumes "A\<^sup>2 + B\<^sup>2 = 1" "sd\<^sup>2 + cd\<^sup>2 = 1" "st\<^sup>2 + ct\<^sup>2 = 1"
  shows "(cd - A * (A * cd + B * sd * ct))\<^sup>2 + (st * sd * B)\<^sup>2
           = B\<^sup>2 * (1 - (A * cd + B * sd * ct)\<^sup>2)"
  using assms by algebra

lemma asin_arg_range:
  fixes p d t :: real
  shows "\<bar>sin p * cos d + cos p * sin d * cos t\<bar> \<le> 1"
proof -
  let ?s = "sin p * cos d + cos p * sin d * cos t"
  have "?s\<^sup>2 + (cos p * cos d - sin p * sin d * cos t)\<^sup>2 + (sin t * sin d)\<^sup>2 = 1"
  proof -
    have "(sin p)\<^sup>2 + (cos p)\<^sup>2 = 1" "(sin d)\<^sup>2 + (cos d)\<^sup>2 = 1"
      "(sin t)\<^sup>2 + (cos t)\<^sup>2 = 1"
      by (rule sin_cos_squared_add)+
    then show ?thesis by algebra
  qed
  then have "?s\<^sup>2 \<le> 1"
    by (smt (verit) zero_le_power2)
  then show ?thesis
    by (simp add: abs_le_square_iff [of _ 1, simplified])
qed

lemma atan2_half:
  assumes "0 \<le> h" "h \<le> pi / 2"
  shows "atan2 (sin h) (cos h) = h"
proof (cases "h = pi / 2")
  case True
  show ?thesis unfolding True by (simp add: atan2_def)
next
  case False
  then have lt: "h < pi / 2" using assms by simp
  then have "0 < cos h" using assms by (intro cos_gt_zero_pi) linarith+
  moreover have "arctan (tan h) = h" using assms lt by (intro arctan_tan) linarith+
  ultimately show ?thesis by (simp add: atan2_def tan_def)
qed

text \<open>Over the reals, for a latitude in \<open>[-90, 90]\<close> degrees and a distance from \<open>0\<close> up
  to half the circumference \<open>pi * R\<close>, the distance to the destination point is the
  distance travelled.\<close>

lemma roundtrip_real:
  assumes la: "- 90 \<le> lat a" "lat a \<le> 90" and d: "0 \<le> d" "d \<le> pi * R"
  shows "calculateDistance a (calculateNewPosition a d th) = d"
proof -
  define p1 where "p1 = toRad (lat a)"
  define dl where "dl = d / R"
  define t where "t = toRad th"
  define s2 where "s2 = sin p1 * cos dl + cos p1 * sin dl * cos t"
  define p2 where "p2 = arcsin s2"
  define y where "y = sin t * sin dl * cos p1"
  define x where "x = cos dl - sin p1 * sin p2"
  define L where "L = atan2 y x"
  have Rpos: "0 < R" by (simp add: R_def)
  have "- 90 * pi \<le> lat a * pi" "lat a * pi \<le> 90 * pi"
    using la by (intro mult_right_mono; simp)+
  then have p1r: "- (pi / 2) \<le> p1" "p1 \<le> pi / 2"
    by (simp_all add: p1_def toRad_def)
  have dlr: "0 \<le> dl" "dl \<le> pi"
    using d Rpos by (simp_all add: dl_def field_simps)
  have cp1: "0 \<le> cos p1" using p1r by (intro cos_ge_zero)
  have s2r: "- 1 \<le> s2" "s2 \<le> 1"
    using asin_arg_range [of p1 dl t] by (simp_all add: s2_def abs_le_iff)
  have sp2: "sin p2 = s2" using s2r by (simp add: p2_def)
  have cp2: "0 \<le> cos p2"
    unfolding p2_def using arcsin_bounded [OF s2r] by (intro cos_ge_zero) simp_all
  have cp2sq: "(cos p2)\<^sup>2 = 1 - s2\<^sup>2"
    using sin_cos_squared_add [of p2] sp2 by (simp add: algebra_simps)
  have xy: "x\<^sup>2 + y\<^sup>2 = (cos p1 * cos p2)\<^sup>2"
  proof -
    have "x\<^sup>2 + y\<^sup>2 = (cos p1)\<^sup>2 * (1 - s2\<^sup>2)"
      unfolding x_def y_def sp2 s2_def
      by (rule sphere_identity) simp_all
    then show ?thesis by (simp add: cp2sq power_mult_distrib)
  qed
  have "sqrt (x\<^sup>2 + y\<^sup>2) = cos p1 * cos p2"
    using cp1 cp2 by (simp add: xy real_sqrt_abs)
  with cos_atan2 [of y x] have cosL: "cos L * (cos p1 * cos p2) = x"
    by (simp add: L_def)
  have half: "\<And>u::real. sin (u / 2) * sin (u / 2) = (1 - cos u) / 2"
  proof -
    fix u :: real
    have "cos u = 1 - 2 * (sin (u / 2))\<^sup>2" using cos_double_sin [of "u / 2"] by simp
    then show "sin (u / 2) * sin (u / 2) = (1 - cos u) / 2"
      by (simp add: power2_eq_square)
  qed
  define a' where "a' = sin ((p2 - p1) / 2) * sin ((p2 - p1) / 2)
              + sin (L / 2) * sin (L / 2) * cos p1 * cos p2"
  have a'eq: "a' = (1 - cos dl) / 2"
  proof -
    have "a' = (1 - cos (p2 - p1)) / 2 + (1 - cos L) / 2 * cos p1 * cos p2"
      by (simp add: a'_def half)
    also have "\<dots> = (1 - sin p2 * sin p1 - cos L * (cos p1 * cos p2)) / 2"
      by (simp add: cos_diff field_simps)
    also have "\<dots> = (1 - cos dl) / 2"
      by (simp add: cosL x_def algebra_simps)
    finally show ?thesis .
  qed
  have hr: "0 \<le> dl / 2" "dl / 2 \<le> pi / 2" using dlr by simp_all
  have sh: "0 \<le> sin (dl / 2)" using hr by (intro sin_ge_zero) linarith+
  have ch: "0 \<le> cos (dl / 2)" using hr by (intro cos_ge_zero) linarith+
  have asq: "a' = (sin (dl / 2))\<^sup>2"
    using half [of dl] by (simp add: a'eq power2_eq_square)
  then have sq1: "sqrt a' = sin (dl / 2)" using sh by simp
  have "1 - a' = (cos (dl / 2))\<^sup>2"
    using asq sin_cos_squared_add [of "dl / 2"] by linarith
  then have sq2: "sqrt (1 - a') = cos (dl / 2)" using ch by simp
  have c: "2 * atan2 (sqrt a') (sqrt (1 - a')) = dl"
    using atan2_half [OF hr] by (simp add: sq1 sq2)
  have "calculateDistance a (calculateNewPosition a d th)
          = R * (2 * atan2 (sqrt a') (sqrt (1 - a')))"
    unfolding calculateDistance_def calculateNewPosition_def Let_def a'_def
    by (simp add: toRad_diff toRad_add p1_def [symmetric] dl_def [symmetric]
        t_def [symmetric] s2_def [symmetric] p2_def [symmetric] y_def [symmetric]
        x_def [symmetric] L_def [symmetric])
  also have "\<dots> = d" using Rpos by (simp add: c dl_def)
  finally show ?thesis .
qed

text \<open>Beyond half the circumference it is not: a full circle leads back to the start.\<close>

lemma roundtrip_real_full_circle:
  "calculateDistance \<lparr> lat = 0, lng = 0 \<rparr>
      (calculateNewPosition \<lparr> lat = 0, lng = 0 \<rparr> (2 * pi * R) 0) = 0
   \<and> 0 \<le> 2 * pi * R
   \<and> \<not> \<bar>calculateDistance \<lparr> lat = 0, lng = 0 \<rparr>
            (calculateNewPosition \<lparr> lat = 0, lng = 0 \<rparr> (2 * pi * R) 0) - 2 * pi * R\<bar>
          \<le> (1 / 2) * (2 * pi * R)"
proof -
  have Rpos: "0 < R" by (simp add: R_def)
  have np: "calculateNewPosition \<lparr> lat = 0, lng = 0 \<rparr> (2 * pi * R) 0 = \<lparr> lat = 0, lng = 0 \<rparr>"
    using Rpos by (simp add: calculateNewPosition_def toRad_def toDeg_def atan2_def Let_def)
  have dist: "calculateDistance \<lparr> lat = 0, lng = 0 \<rparr> \<lparr> lat = 0, lng = 0 \<rparr> = 0"
    by (simp add: calculateDistance_def toRad_def atan2_def Let_def)
  have "0 \<le> R * pi" using Rpos by simp
  with Rpos show ?thesis by (simp add: np dist)
qed

section \<open>Heading: wrap-around and the turn-rate cap\<close>

lemma wrapBelow_shift: "\<exists>k::int. wrapBelow v = v + 360 * of_int k"
proof (induction v rule: wrapBelow.induct)
  case (1 v)
  show ?case
  proof (cases "v < - 180")
    case True
    then obtain k :: int where "wrapBelow (v + 360) = v + 360 + 360 * of_int k"
      using 1 by blast
    then have "wrapBelow v = v + 360 * of_int (k + 1)"
      using True by (subst wrapBelow.simps) simp
    then show ?thesis by blast
  next
    case False
    then have "wrapBelow v = v + 360 * of_int (0::int)" by (subst wrapBelow.simps) simp
    then show ?thesis by blast
  qed
qed

lemma wrapAbove_shift: "\<exists>k::int. wrapAbove v = v + 360 * of_int k"
proof (induction v rule: wrapAbove.induct)
  case (1 v)
  show ?case
  proof (cases "180 < v")
    case True
    then obtain k :: int where "wrapAbove (v - 360) = v - 360 + 360 * of_int k"
      using 1 by blast
    then have "wrapAbove v = v + 360 * of_int (k - 1)"
      using True by (subst wrapAbove.simps) simp
    then show ?thesis by blast
  next
    case False
    then have "wrapAbove v = v + 360 * of_int (0::int)" by (subst wrapAbove.simps) simp
    then show ?thesis by blast
  qed
qed

lemma wrapBelow_ge: "- 180 \<le> wrapBelow v"
proof (induction v rule: wrapBelow.induct)
  case (1 v)
  then show ?case by (subst wrapBelow.simps) auto
qed

lemma wrapAbove_le: "wrapAbove v \<le> 180"
proof (induction v rule: wrapAbove.induct)
  case (1 v)
  then show ?case by (subst wrapAbove.simps) auto
qed

lemma wrapAbove_ge: "- 180 \<le> v \<Longrightarrow> - 180 \<le> wrapAbove v"
proof (induction v rule: wrapAbove.induct)
  case (1 v)
  then show ?case by (subst wrapAbove.simps) auto
qed

lemma angleDiff_range: "- 180 \<le> angleDiff a b \<and> angleDiff a b \<le> 180"
  by (simp add: angleDiff_def wrapAbove_le wrapAbove_ge wrapBelow_ge)

lemma angleDiff_shift: "\<exists>k::int. angleDiff a b = a - b + 360 * of_int k"
proof -
  obtain j :: int where j: "wrapBelow (a - b) = a - b + 360 * of_int j"
    using wrapBelow_shift by blast
  obtain k :: int where k: "wrapAbove (wrapBelow (a - b)) = wrapBelow (a - b) + 360 * of_int k"
    using wrapAbove_shift by blast
  have "angleDiff a b = a - b + 360 * of_int (j + k)"
    using j k by (simp add: angleDiff_def algebra_simps)
  then show ?thesis by blast
qed

lemma js_rem_shift: "\<exists>k::int. js_rem x 360 = x + 360 * of_int k"
proof -
  have "js_rem x 360
          = x + 360 * of_int (- (if 0 \<le> x / 360 then \<lfloor>x / 360\<rfloor> else \<lceil>x / 360\<rceil>))"
    by (simp add: js_rem_def)
  then show ?thesis by blast
qed

lemma js_rem_id: "0 \<le> x \<Longrightarrow> x < 360 \<Longrightarrow> js_rem (x + 360) 360 = x"
proof -
  assume a: "0 \<le> x" "x < 360"
  have "\<lfloor>(x + 360) / 360\<rfloor> = 1"
    using a by (intro floor_unique) (simp_all add: field_simps)
  then show ?thesis using a by (simp add: js_rem_def)
qed

lemma js_rem_range: "0 \<le> x \<Longrightarrow> 0 \<le> js_rem x 360 \<and> js_rem x 360 < 360"
proof -
  assume a: "0 \<le> x"
  have "of_int \<lfloor>x / 360\<rfloor> \<le> x / 360" "x / 360 < of_int \<lfloor>x / 360\<rfloor> + 1"
    by linarith+
  then show ?thesis using a by (simp add: js_rem_def field_simps)
qed

lemma atan2_range: "- pi < atan2 y x \<and> atan2 y x \<le> pi"
proof -
  have b: "- (pi / 2) < arctan (y / x)" "arctan (y / x) < pi / 2"
    by (rule arctan_lbound, rule arctan_ubound)
  have "x < 0 \<Longrightarrow> 0 \<le> y \<Longrightarrow> arctan (y / x) \<le> 0"
    by (simp add: divide_nonneg_neg arctan_le_zero_iff)
  moreover have "x < 0 \<Longrightarrow> y < 0 \<Longrightarrow> 0 < arctan (y / x)"
    by (simp add: divide_neg_neg)
  ultimately show ?thesis
    using b pi_gt_zero by (auto simp: atan2_def)
qed

lemma calculateBearing_range:
  "0 \<le> calculateBearing p q \<and> calculateBearing p q < 360"
proof -
  let ?a = "atan2 (sin (toRad (lng q - lng p)) * cos (toRad (lat q)))
              (cos (toRad (lat p)) * sin (toRad (lat q))
                 - sin (toRad (lat p)) * cos (toRad (lat q)) * cos (toRad (lng q - lng p)))"
  have "- pi < ?a" using atan2_range by blast
  then have "- pi * 180 < ?a * 180" by simp
  then have "- 180 < toDeg ?a"
    by (simp add: toDeg_def field_simps)
  then have "0 \<le> toDeg ?a + 360" by simp
  then show ?thesis
    using js_rem_range [of "toDeg ?a + 360"] by (simp add: calculateBearing_def Let_def)
qed

lemma maxTurnRate_ge: "35 \<le> maxTurnRate v"
  by (simp add: maxTurnRate_def)

lemma turnTowards_capped:
  "\<exists>k::int. \<bar>turnTowards h b v dt - h - 360 * of_int k\<bar> \<le> maxTurnRate v * \<bar>dt\<bar>"
proof (cases "\<bar>angleDiff b h\<bar> \<le> turnStep v dt")
  case True
  obtain k :: int where k: "angleDiff b h = b - h + 360 * of_int k"
    using angleDiff_shift by blast
  have "turnStep v dt \<le> maxTurnRate v * \<bar>dt\<bar>"
    using maxTurnRate_ge [of v] by (simp add: turnStep_def mult_left_mono)
  with True k have "\<bar>turnTowards h b v dt - h - 360 * of_int (- k)\<bar> \<le> maxTurnRate v * \<bar>dt\<bar>"
    by (simp add: turnTowards_def Let_def)
  then show ?thesis by blast
next
  case False
  have "\<bar>sgn (angleDiff b h) * turnStep v dt\<bar> \<le> maxTurnRate v * \<bar>dt\<bar>"
    using maxTurnRate_ge [of v] by (simp add: turnStep_def abs_mult abs_sgn_eq)
  with False have "\<bar>turnTowards h b v dt - h - 360 * of_int (0::int)\<bar> \<le> maxTurnRate v * \<bar>dt\<bar>"
    by (simp add: turnTowards_def Let_def)
  then show ?thesis by blast
qed

lemma steerHeading_capped:
  "\<exists>k::int. \<bar>steerHeading h b v dt - h - 360 * of_int k\<bar> \<le> maxTurnRate v * \<bar>dt\<bar>"
proof -
  obtain k :: int
    where k: "\<bar>turnTowards h b v dt - h - 360 * of_int k\<bar> \<le> maxTurnRate v * \<bar>dt\<bar>"
    using turnTowards_capped by blast
  obtain j :: int where j: "js_rem (turnTowards h b v dt + 360) 360
      = turnTowards h b v dt + 360 + 360 * of_int j"
    using js_rem_shift by blast
  have "steerHeading h b v dt - h - 360 * of_int (k + 1 + j)
          = turnTowards h b v dt - h - 360 * of_int k"
    using j by (simp add: steerHeading_def algebra_simps)
  with k show ?thesis by metis
qed

lemma angleDiff_10_359: "angleDiff 10 359 = 11"
proof -
  have "wrapBelow (- 349) = wrapBelow 11" by (subst wrapBelow.simps) simp
  also have "\<dots> = 11" by (subst wrapBelow.simps) simp
  finally show ?thesis
    by (simp add: angleDiff_def) (subst wrapAbove.simps, simp)
qed

lemma rawHeading_359: "rawHeading (Some 359) 0 = 359"
proof -
  have "\<lfloor>719 / 360 :: real\<rfloor> = 1" by (intro floor_unique) simp_all
  then show ?thesis by (simp add: rawHeading_def js_rem_def)
qed

lemma steerHeading_359: "steerHeading 359 10 0 (1 / 20) = 5"
proof -
  have "\<lfloor>725 / 360 :: real\<rfloor> = 2" by (intro floor_unique) simp_all
  then show ?thesis
    by (simp add: steerHeading_def turnTowards_def angleDiff_10_359 turnStep_def
        maxTurnRate_def js_rem_def)
qed

lemma js_rem_bound: "\<bar>js_rem x 360\<bar> < 360"
proof (cases "0 \<le> x / 360")
  case True
  define c :: real where "c = of_int \<lfloor>x / 360\<rfloor>"
  have "c \<le> x / 360" "x / 360 < c + 1"
    unfolding c_def by linarith+
  then have "360 * c \<le> x" "x < 360 * c + 360"
    by (simp_all add: field_simps)
  moreover have "js_rem x 360 = x - 360 * c"
    using True by (simp add: js_rem_def c_def)
  ultimately show ?thesis by linarith
next
  case False
  define c :: real where "c = of_int \<lceil>x / 360\<rceil>"
  have "x / 360 \<le> c" "c - 1 < x / 360"
    unfolding c_def by linarith+
  then have "x \<le> 360 * c" "360 * c - 360 < x"
    by (simp_all add: field_simps)
  moreover have "js_rem x 360 = x - 360 * c"
    using False by (simp add: js_rem_def c_def)
  ultimately show ?thesis by linarith
qed

lemma angleDiff_0_0: "angleDiff 0 0 = 0"
  by (simp add: angleDiff_def) (subst wrapBelow.simps, simp, subst wrapAbove.simps, simp)

lemma rawHeading_10_355: "rawHeading (Some 10) 355 = 5"
proof -
  have "\<lfloor>725 / 360 :: real\<rfloor> = 2" by (intro floor_unique) simp_all
  then show ?thesis by (simp add: rawHeading_def js_rem_def)
qed

text \<open>
  C2 (as amended).  In every tick the live navigation loop wraps its heading with a
  modulo operation: the raw heading the tick starts from is
  \<open>(alpha + offset + 360) % 360\<close> and the steered heading is again \<open>(h + 360) % 360\<close>,
  so each is congruent modulo 360 to the unwrapped value and of size below 360.  Within
  one tick the steered heading differs from the tick's raw heading by at most the
  per-tick turn-rate cap (\<open>max(35, 120 - 2.5 * speed)\<close> degrees per second times the size
  of delta-time) only up to a whole multiple of 360 degrees, so at the 0/360 boundary its
  value can jump by almost 360.  The steering bearing is incorporated only through the
  signed shortest angular difference \<open>headingError\<close>, which lies in \<open>[-180, 180]\<close> and is
  congruent to bearing minus heading modulo 360: the heading becomes the bearing when
  \<open>headingError\<close> is within the cap, and moves by the cap in the direction of
  \<open>headingError\<close> otherwise.
\<close>

theorem heading_wrapped_capped_modulo_360:
  "(\<exists>k::int. rawHeading alpha alphaOffset
        = (case alpha of None \<Rightarrow> 0 | Some a \<Rightarrow> a) + alphaOffset + 360 * of_int k)
   \<and> \<bar>rawHeading alpha alphaOffset\<bar> < 360
   \<and> (\<exists>k::int. steerHeading h b v dt = turnTowards h b v dt + 360 * of_int k)
   \<and> \<bar>steerHeading h b v dt\<bar> < 360
   \<and> (\<exists>k::int. \<bar>steerHeading h b v dt - h - 360 * of_int k\<bar> \<le> maxTurnRate v * \<bar>dt\<bar>)
   \<and> \<bar>tickHeading alpha alphaOffset b v dt\<bar> < 360
   \<and> (\<exists>k::int. \<bar>tickHeading alpha alphaOffset b v dt - rawHeading alpha alphaOffset
                    - 360 * of_int k\<bar> \<le> maxTurnRate v * \<bar>dt\<bar>)
   \<and> - 180 \<le> angleDiff b h \<and> angleDiff b h \<le> 180
   \<and> (\<exists>k::int. angleDiff b h = b - h + 360 * of_int k)
   \<and> (\<bar>angleDiff b h\<bar> \<le> turnStep v dt \<longrightarrow> turnTowards h b v dt = b)
   \<and> (\<not> \<bar>angleDiff b h\<bar> \<le> turnStep v dt
        \<longrightarrow> turnTowards h b v dt = h + sgn (angleDiff b h) * turnStep v dt)"
proof -
  obtain k1 :: int where "js_rem ((case alpha of None \<Rightarrow> 0 | Some a \<Rightarrow> a) + alphaOffset + 360) 360
      = (case alpha of None \<Rightarrow> 0 | Some a \<Rightarrow> a) + alphaOffset + 360 + 360 * of_int k1"
    using js_rem_shift by blast
  then have "rawHeading alpha alphaOffset
      = (case alpha of None \<Rightarrow> 0 | Some a \<Rightarrow> a) + alphaOffset + 360 * of_int (k1 + 1)"
    by (simp add: rawHeading_def algebra_simps)
  then have raw: "\<exists>k::int. rawHeading alpha alphaOffset
        = (case alpha of None \<Rightarrow> 0 | Some a \<Rightarrow> a) + alphaOffset + 360 * of_int k"
    by blast
  obtain k2 :: int where "js_rem (turnTowards h b v dt + 360) 360
      = turnTowards h b v dt + 360 + 360 * of_int k2"
    using js_rem_shift by blast
  then have "steerHeading h b v dt = turnTowards h b v dt + 360 * of_int (k2 + 1)"
    by (simp add: steerHeading_def algebra_simps)
  then have steer: "\<exists>k::int. steerHeading h b v dt = turnTowards h b v dt + 360 * of_int k"
    by blast
  have bounds: "\<bar>rawHeading alpha alphaOffset\<bar> < 360" "\<bar>steerHeading h b v dt\<bar> < 360"
    "\<bar>tickHeading alpha alphaOffset b v dt\<bar> < 360"
    by (simp_all add: rawHeading_def steerHeading_def tickHeading_def js_rem_bound)
  have tick: "\<exists>k::int. \<bar>tickHeading alpha alphaOffset b v dt - rawHeading alpha alphaOffset
                    - 360 * of_int k\<bar> \<le> maxTurnRate v * \<bar>dt\<bar>"
    unfolding tickHeading_def by (rule steerHeading_capped)
  have turn: "\<bar>angleDiff b h\<bar> \<le> turnStep v dt \<longrightarrow> turnTowards h b v dt = b"
    "\<not> \<bar>angleDiff b h\<bar> \<le> turnStep v dt
        \<longrightarrow> turnTowards h b v dt = h + sgn (angleDiff b h) * turnStep v dt"
    by (simp_all add: turnTowards_def Let_def)
  show ?thesis
    using raw steer bounds tick turn steerHeading_capped [of h b v dt]
      angleDiff_range [of b h] angleDiff_shift [of b h]
    by blast
qed

theorem heading_wrapped_capped_modulo_360_witness:
  "rawHeading (Some 10) 355 = 5
   \<and> \<bar>steerHeading 359 10 0 (1 / 20) - 359 - 360 * of_int (- 1 :: int)\<bar>
       \<le> maxTurnRate 0 * \<bar>1 / 20 :: real\<bar>
   \<and> angleDiff 10 359 = 10 - 359 + 360 * of_int (1::int)
   \<and> \<not> \<bar>angleDiff 10 359\<bar> \<le> turnStep 0 (1 / 20)
   \<and> turnTowards 359 10 0 (1 / 20) = 359 + sgn (angleDiff 10 359) * turnStep 0 (1 / 20)
   \<and> \<bar>angleDiff 0 0\<bar> \<le> turnStep 10 (1 / 10)
   \<and> turnTowards 0 0 10 (1 / 10) = 0"
  using heading_wrapped_capped_modulo_360 [of "Some 10" 355 359 10 0 "1 / 20"]
    heading_wrapped_capped_modulo_360 [of "Some 10" 355 0 0 10 "1 / 10"]
  by (simp add: steerHeading_359 angleDiff_10_359 angleDiff_0_0 rawHeading_10_355
      maxTurnRate_def turnStep_def)

theorem heading_jump_counterexample:
  "rawHeading (Some 359) 0 = 359
   \<and> tickHeading (Some 359) 0 10 0 (1 / 20) = 5
   \<and> turnStep 0 (1 / 20) = 6
   \<and> \<not> \<bar>tickHeading (Some 359) 0 10 0 (1 / 20) - rawHeading (Some 359) 0\<bar>
          \<le> turnStep 0 (1 / 20)"
  by (simp add: tickHeading_def rawHeading_359 steerHeading_359 turnStep_def maxTurnRate_def)

text \<open>
  C8.  In route-following mode the heading is turned towards the steering bearing by at
  most \<open>turnStep = maxTurnRate * deltaTime\<close> per tick, where
  \<open>maxTurnRate = max(35, 120 - 2.5 * currentSpeed)\<close> shrinks as the speed grows, down to
  the floor of 35 degrees per second; when the heading error is within that step the
  heading is set exactly to the steering bearing.
\<close>

theorem turn_rate_cap:
  "maxTurnRate v = max 35 (120 - 2.5 * v)
   \<and> 35 \<le> maxTurnRate v
   \<and> (v \<le> v' \<longrightarrow> maxTurnRate v' \<le> maxTurnRate v)
   \<and> (34 \<le> v \<longrightarrow> maxTurnRate v = 35)
   \<and> turnStep v dt = maxTurnRate v * dt
   \<and> (\<bar>angleDiff (calculateBearing p q) h\<bar> \<le> turnStep v dt
        \<longrightarrow> turnTowards h (calculateBearing p q) v dt = calculateBearing p q
          \<and> steerHeading h (calculateBearing p q) v dt = calculateBearing p q)
   \<and> (\<not> \<bar>angleDiff b h\<bar> \<le> turnStep v dt
        \<longrightarrow> turnTowards h b v dt = h + sgn (angleDiff b h) * turnStep v dt
          \<and> \<bar>turnTowards h b v dt - h\<bar> \<le> maxTurnRate v * \<bar>dt\<bar>)"
proof -
  have "\<bar>sgn (angleDiff b h) * turnStep v dt\<bar> \<le> maxTurnRate v * \<bar>dt\<bar>"
    using maxTurnRate_ge [of v] by (simp add: turnStep_def abs_mult abs_sgn_eq)
  moreover have "js_rem (calculateBearing p q + 360) 360 = calculateBearing p q"
    using calculateBearing_range [of p q] by (simp add: js_rem_id)
  ultimately show ?thesis
    by (auto simp: maxTurnRate_def turnStep_def turnTowards_def steerHeading_def Let_def)
qed

lemma calculateBearing_origin:
  "calculateBearing \<lparr> lat = 0, lng = 0 \<rparr> \<lparr> lat = 0, lng = 0 \<rparr> = 0"
  by (simp add: calculateBearing_def toRad_def toDeg_def atan2_def js_rem_def Let_def)

lemma calculateDistance_origin:
  "calculateDistance \<lparr> lat = 0, lng = 0 \<rparr> \<lparr> lat = 0, lng = 0 \<rparr> = 0"
  by (simp add: calculateDistance_def toRad_def atan2_def Let_def)

lemma angleDiff_0_90: "angleDiff 0 90 = - 90"
  by (simp add: angleDiff_def) (subst wrapBelow.simps, simp, subst wrapAbove.simps, simp)

theorem turn_rate_cap_witness:
  "steerHeading 0 (calculateBearing \<lparr> lat = 0, lng = 0 \<rparr> \<lparr> lat = 0, lng = 0 \<rparr>) 10 (1 / 10)
     = calculateBearing \<lparr> lat = 0, lng = 0 \<rparr> \<lparr> lat = 0, lng = 0 \<rparr>
   \<and> turnStep 10 (1 / 10) = 19 / 2
   \<and> turnTowards 90 0 10 (1 / 10) = 90 - 19 / 2
   \<and> maxTurnRate 40 = 35"
  using turn_rate_cap [of 10 40 "1 / 10" "\<lparr> lat = 0, lng = 0 \<rparr>" "\<lparr> lat = 0, lng = 0 \<rparr>" 0 0]
    turn_rate_cap [of 10 40 "1 / 10" "\<lparr> lat = 0, lng = 0 \<rparr>" "\<lparr> lat = 0, lng = 0 \<rparr>" 90 0]
    turn_rate_cap [of 40 40 "1 / 10" "\<lparr> lat = 0, lng = 0 \<rparr>" "\<lparr> lat = 0, lng = 0 \<rparr>" 90 0]
  by (simp add: calculateBearing_origin angleDiff_0_0 angleDiff_0_90 turnStep_def maxTurnRate_def)

section \<open>Next-waypoint index\<close>

lemma advanceWaypoint_index:
  "nextRoutePointIndexRef st \<le> nextRoutePointIndexRef (advanceWaypoint st)
   \<and> nextRoutePointIndexRef (advanceWaypoint st) \<le> nextRoutePointIndexRef st + 1"
  by (simp add: advanceWaypoint_def Let_def)

lemma tick_index:
  "nextRoutePointIndexRef st \<le> nextRoutePointIndexRef (tick st env)
   \<and> nextRoutePointIndexRef (tick st env) \<le> nextRoutePointIndexRef st + 1"
proof -
  obtain loc speed sim nav where env: "env = (loc, speed, sim, nav)"
    by (cases env) auto
  show ?thesis
    using advanceWaypoint_index
      [of "st\<lparr> currentLocation := loc, currentSpeed := speed,
               isSimulatingMove := sim, navState := nav \<rparr>"]
    by (simp add: tick_def env)
qed

lemma runTicks_index:
  "nextRoutePointIndexRef st \<le> nextRoutePointIndexRef (runTicks st envs)
   \<and> nextRoutePointIndexRef (runTicks st envs) \<le> nextRoutePointIndexRef st + length envs"
  unfolding runTicks_def
proof (induction envs arbitrary: st)
  case Nil
  then show ?case by simp
next
  case (Cons env envs)
  from Cons.IH [of "tick st env"] tick_index [of st env]
  show ?case by simp
qed

text \<open>
  C7.  Within the lifetime of one installed route the next-waypoint index never decreases
  and grows by at most one per tick; it grows only when the distance to the currently
  targeted route point is below the threshold \<open>max(5, currentSpeed)\<close>; installing a
  new route resets it to 1.
\<close>

theorem waypoint_index_monotone:
  "nextRoutePointIndexRef st \<le> nextRoutePointIndexRef (advanceWaypoint st)
   \<and> nextRoutePointIndexRef (advanceWaypoint st) \<le> nextRoutePointIndexRef st + 1
   \<and> routeCoordinates (advanceWaypoint st) = routeCoordinates st
   \<and> (nextRoutePointIndexRef (advanceWaypoint st) \<noteq> nextRoutePointIndexRef st
        \<longrightarrow> calculateDistance (currentLocation st) (routeCoordinates st ! targetIdx st)
              < max 5 (currentSpeed st))
   \<and> nextRoutePointIndexRef st \<le> nextRoutePointIndexRef (runTicks st envs)
   \<and> nextRoutePointIndexRef (runTicks st envs) \<le> nextRoutePointIndexRef st + length envs
   \<and> nextRoutePointIndexRef (installRoute st route) = 1
   \<and> routeCoordinates (installRoute st route) = route"
  using runTicks_index [of st envs]
  by (simp add: advanceWaypoint_def installRoute_def Let_def)

theorem waypoint_index_monotone_witness:
  "nextRoutePointIndexRef (advanceWaypoint
      \<lparr> nextRoutePointIndexRef = 1,
        routeCoordinates = [\<lparr> lat = 0, lng = 0 \<rparr>, \<lparr> lat = 0, lng = 0 \<rparr>, \<lparr> lat = 0, lng = 0 \<rparr>],
        currentLocation = \<lparr> lat = 0, lng = 0 \<rparr>, currentSpeed = 0,
        isSimulatingMove = True, navState = NAVIGATING \<rparr>) = 2
   \<and> calculateDistance \<lparr> lat = 0, lng = 0 \<rparr>
        ([\<lparr> lat = 0, lng = 0 \<rparr>, \<lparr> lat = 0, lng = 0 \<rparr>, \<lparr> lat = 0, lng = 0 \<rparr>] ! 1) < max 5 0
   \<and> nextRoutePointIndexRef (runTicks
        \<lparr> nextRoutePointIndexRef = 1,
          routeCoordinates = [\<lparr> lat = 0, lng = 0 \<rparr>, \<lparr> lat = 0, lng = 0 \<rparr>, \<lparr> lat = 0, lng = 0 \<rparr>],
          currentLocation = \<lparr> lat = 0, lng = 0 \<rparr>, currentSpeed = 0,
          isSimulatingMove = True, navState = NAVIGATING \<rparr>
        [(\<lparr> lat = 0, lng = 0 \<rparr>, 0, True, NAVIGATING),
         (\<lparr> lat = 0, lng = 0 \<rparr>, 0, True, NAVIGATING)]) = 2
   \<and> nextRoutePointIndexRef (installRoute
        \<lparr> nextRoutePointIndexRef = 2,
          routeCoordinates = [\<lparr> lat = 0, lng = 0 \<rparr>, \<lparr> lat = 0, lng = 0 \<rparr>, \<lparr> lat = 0, lng = 0 \<rparr>],
          currentLocation = \<lparr> lat = 0, lng = 0 \<rparr>, currentSpeed = 0,
          isSimulatingMove = True, navState = NAVIGATING \<rparr>
        [\<lparr> lat = 0, lng = 0 \<rparr>, \<lparr> lat = 0, lng = 0 \<rparr>]) = 1"
  using waypoint_index_monotone
    [of "\<lparr> nextRoutePointIndexRef = 1,
          routeCoordinates = [\<lparr> lat = 0, lng = 0 \<rparr>, \<lparr> lat = 0, lng = 0 \<rparr>, \<lparr> lat = 0, lng = 0 \<rparr>],
          currentLocation = \<lparr> lat = 0, lng = 0 \<rparr>, currentSpeed = 0,
          isSimulatingMove = True, navState = NAVIGATING \<rparr>"
        "[(\<lparr> lat = 0, lng = 0 \<rparr>, 0, True, NAVIGATING),
          (\<lparr> lat = 0, lng = 0 \<rparr>, 0, True, NAVIGATING)]"
        "[\<lparr> lat = 0, lng = 0 \<rparr>, \<lparr> lat = 0, lng = 0 \<rparr>]"]
    waypoint_index_monotone
    [of "\<lparr> nextRoutePointIndexRef = 2,
          routeCoordinates = [\<lparr> lat = 0, lng = 0 \<rparr>, \<lparr> lat = 0, lng = 0 \<rparr>, \<lparr> lat = 0, lng = 0 \<rparr>],
          currentLocation = \<lparr> lat = 0, lng = 0 \<rparr>, currentSpeed = 0,
          isSimulatingMove = True, navState = NAVIGATING \<rparr>"
        "[]" "[\<lparr> lat = 0, lng = 0 \<rparr>, \<lparr> lat = 0, lng = 0 \<rparr>]"]
  by (simp add: runTicks_def tick_def advanceWaypoint_def targetIdx_def
      calculateDistance_origin Let_def)

section \<open>The maneuver scan stays inside the route\<close>

lemma scan_in_bounds:
  "\<exists>st'. scan route idx i st = Inr st'
     \<and> (\<forall>j \<in> set (visited st'). j \<in> set (visited st)
            \<or> (i \<le> j \<and> j + 2 < length route \<and> j \<le> idx + 29))"
proof (induction route idx i st rule: scan.induct)
  case (1 route idx i st)
  show ?case
  proof (cases "i < min (length route - 2) (idx + 30)")
    case False
    then have "scan route idx i st = Inr st" by (subst scan.simps) auto
    then show ?thesis by simp
  next
    case inb: True
    show ?thesis
    proof (cases "1500 < lookAheadDist st")
      case True
      then have "scan route idx i st = Inr st" by (subst scan.simps) auto
      then show ?thesis by simp
    next
      case far: False
      have lt: "i + 2 < length route" using inb by auto
      have a0: "routeAt route i = Some (route ! i)" using lt by (simp add: routeAt_def)
      have a1: "routeAt route (i + 1) = Some (route ! (i + 1))"
        using lt by (simp add: routeAt_def)
      have a2: "routeAt route (i + 2) = Some (route ! (i + 2))"
        using lt by (simp add: routeAt_def)
      let ?st1 = "st\<lparr> visited := visited st @ [i] \<rparr>"
      let ?diff = "angleDiff (calculateBearing (route ! (i + 1)) (route ! (i + 2)))
                     (calculateBearing (route ! i) (route ! (i + 1)))"
      show ?thesis
      proof (cases "30 < \<bar>?diff\<bar>")
        case True
        then show ?thesis using inb far a0 a1 a2
          by (subst scan.simps) (auto simp: Let_def)
      next
        case False
        let ?st2 = "?st1\<lparr> lookAheadDist := lookAheadDist ?st1
                       + calculateDistance (route ! i) (route ! (i + 1)) \<rparr>"
        have eq: "scan route idx i st = scan route idx (i + 1) ?st2"
          using inb far a0 a1 a2 False by (subst scan.simps) (simp add: Let_def)
        from "1.IH" [OF inb far a0 a1 a2 refl refl refl refl refl False]
        obtain st' where st': "scan route idx (i + 1) ?st2 = Inr st'"
          "\<forall>j \<in> set (visited st'). j \<in> set (visited ?st2)
              \<or> (i + 1 \<le> j \<and> j + 2 < length route \<and> j \<le> idx + 29)"
          by blast
        have "\<forall>j \<in> set (visited st'). j \<in> set (visited st)
              \<or> (i \<le> j \<and> j + 2 < length route \<and> j \<le> idx + 29)"
          using st'(2) inb by auto
        with eq st'(1) show ?thesis by simp
      qed
    qed
  qed
qed

text \<open>
  C10.  The maneuver scan never reads past the end of the route: for every route and
  every current index the scan returns without a \<open>TypeError\<close>, and every loop index \<open>i\<close>
  whose body reads the route lies between the current index and
  \<open>min(length - 3, index + 29)\<close>, so that the positions \<open>i\<close>, \<open>i + 1\<close> and \<open>i + 2\<close> it
  reads are all below the length of the route.
\<close>

theorem maneuver_scan_in_bounds:
  "\<exists>st'. scan route idx idx st = Inr st'
     \<and> (\<forall>i \<in> set (visited st'). i \<in> set (visited st)
            \<or> (idx \<le> i \<and> int i \<le> min (int (length route) - 3) (int idx + 29)
                \<and> i < length route \<and> i + 1 < length route \<and> i + 2 < length route))"
proof -
  obtain st' where st': "scan route idx idx st = Inr st'"
    "\<forall>j \<in> set (visited st'). j \<in> set (visited st)
        \<or> (idx \<le> j \<and> j + 2 < length route \<and> j \<le> idx + 29)"
    using scan_in_bounds [of route idx idx st] by blast
  have "\<forall>i \<in> set (visited st'). i \<in> set (visited st)
            \<or> (idx \<le> i \<and> int i \<le> min (int (length route) - 3) (int idx + 29)
                \<and> i < length route \<and> i + 1 < length route \<and> i + 2 < length route)"
    using st'(2) by auto
  with st'(1) show ?thesis by blast
qed

theorem maneuver_scan_in_bounds_witness:
  "\<exists>st'. scan [\<lparr> lat = 0, lng = 0 \<rparr>, \<lparr> lat = 0, lng = 0 \<rparr>, \<lparr> lat = 0, lng = 0 \<rparr>,
               \<lparr> lat = 0, lng = 0 \<rparr>] 1 1
            \<lparr> distToTurn = 0, maneuverFound = False, mType = ''straight'',
              mText = ''Continue straight'', lookAheadDist = 0, visited = [] \<rparr> = Inr st'
     \<and> visited st' = [1]"
proof -
  let ?r = "[\<lparr> lat = 0, lng = 0 \<rparr>, \<lparr> lat = 0, lng = 0 \<rparr>, \<lparr> lat = 0, lng = 0 \<rparr>,
             \<lparr> lat = 0, lng = 0 \<rparr>]"
  let ?st = "\<lparr> distToTurn = 0, maneuverFound = False, mType = ''straight'',
               mText = ''Continue straight'', lookAheadDist = 0, visited = [] \<rparr>"
  have "scan ?r 1 1 ?st = scan ?r 1 2 (?st\<lparr> visited := [1], lookAheadDist := 0 \<rparr>)"
    by (subst scan.simps)
      (simp add: routeAt_def calculateBearing_origin calculateDistance_origin angleDiff_0_0
        eval_nat_numeral)
  also have "\<dots> = Inr (?st\<lparr> visited := [1], lookAheadDist := 0 \<rparr>)"
    by (subst scan.simps) (simp add: eval_nat_numeral)
  finally show ?thesis
    using maneuver_scan_in_bounds [of ?r 1 ?st] by simp
qed


end
